theory Spec2Isabelle
  imports Complex_Main
begin

section \<open>Conventions of the embedding\<close>

text \<open>
  The development embeds the decision logic of the job-application automation
  (modules \<^verbatim>\<open>smart_filter\<close>, \<^verbatim>\<open>smart_filters\<close>, \<^verbatim>\<open>session_manager\<close>,
  \<^verbatim>\<open>retry_handler\<close>, \<^verbatim>\<open>external/ats_detector\<close>, \<^verbatim>\<open>external/field_knowledge_base\<close>
  and \<^verbatim>\<open>external/universal_form_filler\<close>).

  \<^item> Python \<^verbatim>\<open>int\<close> is \<open>int\<close>; \<^verbatim>\<open>None\<close>-able values are \<open>option\<close>.
  \<^item> Python \<^verbatim>\<open>float\<close> is \<open>real\<close>: rounding of IEEE doubles, overflow to infinity
    and the \<^verbatim>\<open>OverflowError\<close> of converting an integer beyond the double range are
    not part of the model.
  \<^item> Strings are \<open>string\<close> and every character is taken to be ASCII, so that
    \<^verbatim>\<open>str.lower\<close>, \<^verbatim>\<open>\s\<close> and \<^verbatim>\<open>\d\<close> are their ASCII versions.
  \<^item> A \<^verbatim>\<open>dict\<close> whose iteration order is observable is an association list in
    insertion order; the other dictionaries are maps.
  \<^item> The clock, the random generator, the file system and the browser are parameters.
\<close>

section \<open>ASCII strings\<close>

text \<open>
  \<^verbatim>\<open>str.lower\<close> on ASCII text, the test \<^verbatim>\<open>pattern in text\<close>, the character classes
  \<^verbatim>\<open>\s\<close> and \<^verbatim>\<open>\d\<close> of the module \<^verbatim>\<open>re\<close> and \<^verbatim>\<open>str.strip\<close>. Python counts the
  separators \<open>0x1C\<close> to \<open>0x1F\<close> as white space.
\<close>

definition lower_char :: "char \<Rightarrow> char" where
  "lower_char c =
     (case map_of (zip ''ABCDEFGHIJKLMNOPQRSTUVWXYZ'' ''abcdefghijklmnopqrstuvwxyz'') c of
        Some l \<Rightarrow> l
      | None \<Rightarrow> c)"

definition lower :: "string \<Rightarrow> string" where
  "lower s = map lower_char s"

fun startswith :: "string \<Rightarrow> string \<Rightarrow> bool" where
  "startswith s [] = True"
| "startswith [] (p # ps) = False"
| "startswith (c # cs) (p # ps) = (c = p \<and> startswith cs ps)"

fun contains :: "string \<Rightarrow> string \<Rightarrow> bool" where
  "contains pat [] = (pat = [])"
| "contains pat (c # cs) = (startswith (c # cs) pat \<or> contains pat cs)"

definition is_space :: "char \<Rightarrow> bool" where
  "is_space c \<longleftrightarrow> c \<in> set [CHR 0x09, CHR 0x0A, CHR 0x0B, CHR 0x0C, CHR 0x0D,
                           CHR 0x1C, CHR 0x1D, CHR 0x1E, CHR 0x1F, CHR 0x20]"

definition is_digit :: "char \<Rightarrow> bool" where
  "is_digit c \<longleftrightarrow> c \<in> set ''0123456789''"

definition strip :: "string \<Rightarrow> string" where
  "strip s = rev (dropWhile is_space (rev (dropWhile is_space s)))"

section \<open>Smart filter: company gating and priority score\<close>

text \<open>
  One value of the rejected-companies table. The file is JSON, so the key
  \<^verbatim>\<open>rejection_count\<close> may be missing; \<^verbatim>\<open>should_skip_company\<close> reads it with
  \<^verbatim>\<open>.get("rejection_count", 0)\<close>.
\<close>

record company_entry =
  first_rejection :: "string option"
  rejection_count :: "int option"
  last_rejection :: "string option"
  reasons :: "string list"

text \<open>
  \<^verbatim>\<open>self.rejected_companies\<close>: a dictionary whose key \<^verbatim>\<open>"companies"\<close> may be
  missing (\<^verbatim>\<open>.get("companies", {})\<close>).
\<close>

record SmartFilter =
  viewed_jobs :: "string set"
  rejected_companies :: "(string \<rightharpoonup> company_entry) option"

definition companies_table :: "SmartFilter \<Rightarrow> (string \<rightharpoonup> company_entry)" where
  "companies_table self =
     (case rejected_companies self of None \<Rightarrow> Map.empty | Some m \<Rightarrow> m)"

definition recorded_count :: "company_entry \<Rightarrow> int" where
  "recorded_count e = (case rejection_count e of None \<Rightarrow> 0 | Some c \<Rightarrow> c)"

definition should_skip_company :: "SmartFilter \<Rightarrow> string \<Rightarrow> int \<Rightarrow> bool" where
  "should_skip_company self company rejection_threshold =
     (case companies_table self company of
        Some e \<Rightarrow> recorded_count e \<ge> rejection_threshold
      | None \<Rightarrow> False)"

text \<open>
  \<^verbatim>\<open>calculate_job_priority\<close>. The method does not read \<^verbatim>\<open>self\<close>. The three
  \<^verbatim>\<open>if/elif\<close> chains are kept in the order of the source.
\<close>

definition applicant_bonus :: "int option \<Rightarrow> real" where
  "applicant_bonus applicant_count =
     (case applicant_count of
        None \<Rightarrow> 0
      | Some n \<Rightarrow>
          if n < 10 then 20
          else if n < 50 then 10
          else if n > 200 then - 20
          else 0)"

definition recency_bonus :: "int option \<Rightarrow> real" where
  "recency_bonus days_posted =
     (case days_posted of
        None \<Rightarrow> 0
      | Some d \<Rightarrow>
          if d = 0 then 15
          else if d \<le> 2 then 10
          else if d \<le> 7 then 5
          else if d > 30 then - 10
          else 0)"

definition calculate_job_priority ::
  "int option \<Rightarrow> int option \<Rightarrow> bool \<Rightarrow> int \<Rightarrow> real" where
  "calculate_job_priority applicant_count days_posted is_easy_apply company_rejection_count =
     (let score = 50;
          score = score + applicant_bonus applicant_count;
          score = score + recency_bonus days_posted;
          score = (if is_easy_apply then score + 10 else score);
          score = score - real_of_int (company_rejection_count * 5)
      in max 0 (min 100 score))"

text \<open>A table with one company rejected twice and one rejected once.\<close>

definition acme_twice :: company_entry where
  "acme_twice = \<lparr>first_rejection = Some ''2024-01-01T00:00:00'', rejection_count = Some 2,
     last_rejection = Some ''2024-02-01T00:00:00'', reasons = [''Rejected application'']\<rparr>"

definition initech_once :: company_entry where
  "initech_once = \<lparr>first_rejection = Some ''2024-01-05T00:00:00'', rejection_count = Some 1,
     last_rejection = Some ''2024-01-05T00:00:00'', reasons = [''Rejected application'']\<rparr>"

definition example_filter :: SmartFilter where
  "example_filter = \<lparr>viewed_jobs = {},
     rejected_companies = Some [''Acme'' \<mapsto> acme_twice, ''Initech'' \<mapsto> initech_once]\<rparr>"

subsection \<open>Applicant count from text\<close>

text \<open>
  \<^verbatim>\<open>int(match.group(1))\<close> on a run of ASCII digits. The interpreter's limit on the
  number of digits that \<^verbatim>\<open>int\<close> accepts is not modelled.
\<close>

definition digit_value :: "char \<Rightarrow> int" where
  "digit_value c =
     (case map_of (zip ''0123456789'' [0, 1, 2, 3, 4, 5, 6, 7, 8, 9]) c of
        Some d \<Rightarrow> d
      | None \<Rightarrow> 0)"

definition int_of_digits :: "string \<Rightarrow> int" where
  "int_of_digits ds = foldl (\<lambda>acc c. acc * 10 + digit_value c) 0 ds"

text \<open>
  \<^verbatim>\<open>re.search\<close> tries the start positions from left to right; \<open>search m\<close> does
  so for a matcher \<open>m\<close> that matches at the start of its argument and returns
  group 1. The three patterns are \<^verbatim>\<open>word\s+(\d+)\<close>, \<^verbatim>\<open>(\d+)\s+word\<close> and
  \<^verbatim>\<open>(\d+)\<close>. White space, digits and letters are disjoint classes, so the greedy
  match of \<^verbatim>\<open>\s+\<close> and \<^verbatim>\<open>\d+\<close> is the only one: giving a character back never
  lets the rest of the pattern match.
\<close>

fun search :: "(string \<Rightarrow> 'a option) \<Rightarrow> string \<Rightarrow> 'a option" where
  "search m [] = m []"
| "search m (c # cs) = (case m (c # cs) of Some g \<Rightarrow> Some g | None \<Rightarrow> search m cs)"

definition match_word_digits :: "string \<Rightarrow> string \<Rightarrow> string option" where
  "match_word_digits word s =
     (if startswith s word then
        (let rest = drop (length word) s;
             spaces = takeWhile is_space rest;
             digits = takeWhile is_digit (dropWhile is_space rest)
         in if spaces \<noteq> [] \<and> digits \<noteq> [] then Some digits else None)
      else None)"

definition match_digits_word :: "string \<Rightarrow> string \<Rightarrow> string option" where
  "match_digits_word word s =
     (let digits = takeWhile is_digit s;
          rest = dropWhile is_digit s;
          spaces = takeWhile is_space rest
      in if digits \<noteq> [] \<and> spaces \<noteq> [] \<and> startswith (dropWhile is_space rest) word
         then Some digits else None)"

definition match_digits :: "string \<Rightarrow> string option" where
  "match_digits s =
     (let digits = takeWhile is_digit s in if digits \<noteq> [] then Some digits else None)"

text \<open>
  The method \<^verbatim>\<open>SmartFilter.extract_applicant_count\<close> of \<^verbatim>\<open>smart_filter.py\<close>. The
  three rules are tried in the order of the source: ``over N'', then
  ``N applicant'', then ``first N''.
\<close>

definition SmartFilter_extract_applicant_count :: "string \<Rightarrow> int option" where
  "SmartFilter_extract_applicant_count applicant_text =
     (case (if contains ''over'' (lower applicant_text)
            then search (match_word_digits ''over'') (lower applicant_text) else None) of
        Some g \<Rightarrow> Some (int_of_digits g + 50)
      | None \<Rightarrow>
          (case search (match_digits_word ''applicant'') (lower applicant_text) of
             Some g \<Rightarrow> Some (int_of_digits g)
           | None \<Rightarrow>
               (case (if contains ''first'' (lower applicant_text)
                      then search (match_word_digits ''first'') (lower applicant_text) else None) of
                  Some g \<Rightarrow> Some (int_of_digits g div 2)
                | None \<Rightarrow> None)))"

text \<open>
  The function \<^verbatim>\<open>extract_applicant_count\<close> of \<^verbatim>\<open>smart_filters.py\<close>. The page is the
  parameter \<open>find_element\<close>: the text of the first element that an XPath selector
  finds, or \<open>None\<close> when \<^verbatim>\<open>find_element\<close> raises. The search for ``over'' ignores
  case (\<^verbatim>\<open>re.IGNORECASE\<close>), which on ASCII text is the search in the lowered text.
\<close>

definition applicant_selectors :: "string list" where
  "applicant_selectors =
     [''.//span[contains(text(), 'applicant')]'',
      ''.//span[contains(text(), 'applications')]'',
      ''.//li[contains(@class, 'job-details') and contains(., 'applicant')]'']"

fun first_element_text :: "(string \<Rightarrow> string option) \<Rightarrow> string list \<Rightarrow> string option" where
  "first_element_text find_element [] = None"
| "first_element_text find_element (selector # selectors) =
     (case find_element selector of
        Some text \<Rightarrow> Some text
      | None \<Rightarrow> first_element_text find_element selectors)"

definition extract_applicant_count :: "(string \<Rightarrow> string option) \<Rightarrow> int option" where
  "extract_applicant_count find_element =
     (case first_element_text find_element applicant_selectors of
        None \<Rightarrow> None
      | Some applicant_text \<Rightarrow>
          if applicant_text = [] then None
          else
            (case (if contains ''over'' (lower applicant_text)
                   then search (match_word_digits ''over'') (lower applicant_text) else None) of
               Some g \<Rightarrow> Some (int_of_digits g)
             | None \<Rightarrow>
                 (case search match_digits applicant_text of
                    Some g \<Rightarrow> Some (int_of_digits g)
                  | None \<Rightarrow> None)))"

section \<open>Session checkpoint\<close>

text \<open>
  What \<^verbatim>\<open>should_resume\<close> finds at \<^verbatim>\<open>CHECKPOINT_FILE\<close>: no file (\<open>NoFile\<close>), a file
  that cannot be opened or parsed or whose JSON value is not an object
  (\<open>Unreadable\<close>), or a checkpoint. The value under the key \<^verbatim>\<open>timestamp\<close> of a
  checkpoint is missing or falsy (\<open>NoTimestamp\<close>), or a value on which
  \<^verbatim>\<open>datetime.fromisoformat\<close> raises or which carries a UTC offset, so that the
  subtraction from the naive \<^verbatim>\<open>datetime.now()\<close> raises (\<open>BadTimestamp\<close>), or a naive
  date and time, given in microseconds on the same axis as the clock \<open>now\<close>.
\<close>

datatype timestamp_field = NoTimestamp | BadTimestamp | Timestamp int

datatype checkpoint_file =
    NoFile
  | Unreadable
  | Checkpoint timestamp_field

text \<open>
  \<^verbatim>\<open>timedelta.total_seconds()\<close> divides the microseconds by \<open>10\<^sup>6\<close>. Every
  exception is caught by the bare \<^verbatim>\<open>except\<close> and gives \<^verbatim>\<open>False\<close>.
\<close>

definition total_seconds :: "int \<Rightarrow> real" where
  "total_seconds microseconds = real_of_int microseconds / 1000000"

definition should_resume :: "int \<Rightarrow> checkpoint_file \<Rightarrow> bool" where
  "should_resume now f =
     (case f of
        NoFile \<Rightarrow> False
      | Unreadable \<Rightarrow> False
      | Checkpoint NoTimestamp \<Rightarrow> False
      | Checkpoint BadTimestamp \<Rightarrow> False
      | Checkpoint (Timestamp checkpoint_time) \<Rightarrow>
          (let age_hours = total_seconds (now - checkpoint_time) / 3600
           in age_hours < 24))"

definition hours :: "int \<Rightarrow> int" where
  "hours h = h * 3600 * 1000000"

section \<open>Field knowledge base\<close>

text \<open>
  The inner dictionaries of \<^verbatim>\<open>field_mappings\<close> map a field type to its count.
  \<^verbatim>\<open>max(mappings, key=mappings.get)\<close> walks them in insertion order, so they are
  association lists with distinct keys. \<open>dict_set\<close> is \<^verbatim>\<open>d[k] = v\<close>: an existing
  key keeps its place, a new key goes to the end; \<^verbatim>\<open>d.get(k)\<close> is \<open>map_of d k\<close>.
\<close>

fun dict_set :: "'k \<Rightarrow> 'v \<Rightarrow> ('k \<times> 'v) list \<Rightarrow> ('k \<times> 'v) list" where
  "dict_set k v [] = [(k, v)]"
| "dict_set k v ((k', v') # rest) =
     (if k' = k then (k, v) # rest else (k', v') # dict_set k v rest)"

text \<open>
  \<^verbatim>\<open>max(mappings, key=mappings.get)\<close> on a non-empty dictionary: the first key, in
  iteration order, whose count is maximal (a later key replaces the best one only
  when its count is strictly greater).
\<close>

fun max_key_from :: "('k \<times> int) list \<Rightarrow> 'k \<Rightarrow> int \<Rightarrow> 'k" where
  "max_key_from [] best best_count = best"
| "max_key_from ((k, c) # rest) best best_count =
     (if c > best_count then max_key_from rest k c else max_key_from rest best best_count)"

definition max_key :: "('k \<times> int) list \<Rightarrow> 'k option" where
  "max_key mappings =
     (case mappings of [] \<Rightarrow> None | (k, c) # rest \<Rightarrow> Some (max_key_from rest k c))"

text \<open>
  \<^verbatim>\<open>self.knowledge\<close>. The third key, \<^verbatim>\<open>successful_patterns\<close>, is never read or
  written by the two operations and is left out. The state is the one in memory:
  \<^verbatim>\<open>_save_knowledge\<close> writes it to the file and swallows its own failures.
\<close>

record knowledge =
  field_mappings :: "string \<rightharpoonup> (string \<times> int) list"
  ats_specific_mappings :: "string \<rightharpoonup> (string \<rightharpoonup> string)"

definition empty_knowledge :: knowledge where
  "empty_knowledge = \<lparr>field_mappings = Map.empty, ats_specific_mappings = Map.empty\<rparr>"

text \<open>
  Lines 68 to 71 of \<^verbatim>\<open>learn_field_mapping\<close>: a type that is not yet counted is
  entered with 0, then its count is incremented.
\<close>

definition count_mapping :: "string \<Rightarrow> (string \<times> int) list \<Rightarrow> (string \<times> int) list" where
  "count_mapping field_type m =
     (let m = (if map_of m field_type = None then dict_set field_type 0 m else m)
      in case map_of m field_type of
           Some c \<Rightarrow> dict_set field_type (c + 1) m
         | None \<Rightarrow> m)"

definition learn_field_mapping :: "string \<Rightarrow> string \<Rightarrow> string \<Rightarrow> knowledge \<Rightarrow> knowledge" where
  "learn_field_mapping field_identifier field_type ats_platform kb =
     (let m = (case field_mappings kb field_identifier of None \<Rightarrow> [] | Some m \<Rightarrow> m);
          kb = kb\<lparr>field_mappings := (field_mappings kb)(field_identifier \<mapsto> count_mapping field_type m)\<rparr>
      in if ats_platform \<noteq> ''unknown'' then
           (let pm = (case ats_specific_mappings kb ats_platform of None \<Rightarrow> Map.empty | Some pm \<Rightarrow> pm);
                pm = (if pm field_identifier = None then pm(field_identifier \<mapsto> field_type) else pm)
            in kb\<lparr>ats_specific_mappings := (ats_specific_mappings kb)(ats_platform \<mapsto> pm)\<rparr>)
         else kb)"

text \<open>The platform-specific entry stored for a platform and a field identifier.\<close>

definition platform_entry :: "knowledge \<Rightarrow> string \<Rightarrow> string \<Rightarrow> string option" where
  "platform_entry kb ats_platform field_identifier =
     (case ats_specific_mappings kb ats_platform of
        None \<Rightarrow> None
      | Some pm \<Rightarrow> pm field_identifier)"

definition general_lookup :: "knowledge \<Rightarrow> string \<Rightarrow> string option" where
  "general_lookup kb field_identifier =
     (case field_mappings kb field_identifier of
        None \<Rightarrow> None
      | Some mappings \<Rightarrow> if mappings \<noteq> [] then max_key mappings else None)"

definition get_field_type :: "string \<Rightarrow> string \<Rightarrow> knowledge \<Rightarrow> string option" where
  "get_field_type field_identifier ats_platform kb =
     (case (if ats_platform \<noteq> ''unknown'' then ats_specific_mappings kb ats_platform else None) of
        Some pm \<Rightarrow>
          (case pm field_identifier of
             Some t \<Rightarrow> Some t
           | None \<Rightarrow> general_lookup kb field_identifier)
      | None \<Rightarrow> general_lookup kb field_identifier)"

text \<open>A sequence of \<^verbatim>\<open>learn_field_mapping\<close> calls, each given as (identifier, type, platform).\<close>

fun learn_all :: "(string \<times> string \<times> string) list \<Rightarrow> knowledge \<Rightarrow> knowledge" where
  "learn_all [] kb = kb"
| "learn_all ((i, t, p) # calls) kb = learn_all calls (learn_field_mapping i t p kb)"

section \<open>AI classification of a form field\<close>

text \<open>
  \<^verbatim>\<open>classify_field_with_gemini\<close> of \<^verbatim>\<open>universal_form_filler.py\<close>. The function
  \<^verbatim>\<open>gemini_completion\<close> is an external service; what it does is the parameter: the
  call (or the import before it) raises, or it returns a value that has no
  \<^verbatim>\<open>strip\<close> method, or it returns a text. The categories are the ones that the
  prompt of the source lists.
\<close>

datatype ai_response = CallFails | NotText | Text string

definition allowed_tags :: "string list" where
  "allowed_tags =
     [''first_name'', ''last_name'', ''full_name'', ''email'', ''phone'', ''linkedin'',
      ''website'', ''github'', ''address'', ''city'', ''state'', ''zip'', ''country'',
      ''resume'', ''cover_letter'', ''unknown'']"

definition classify_field_with_gemini :: "ai_response \<Rightarrow> string" where
  "classify_field_with_gemini response =
     (case response of
        CallFails \<Rightarrow> ''unknown''
      | NotText \<Rightarrow> ''unknown''
      | Text r \<Rightarrow> (let field_type = lower (strip r) in field_type))"

section \<open>ATS detector\<close>

text \<open>
  The two tables of \<^verbatim>\<open>ats_detector.py\<close>, as association lists in the order of the
  source: the loops walk the dictionaries in insertion order.
\<close>

definition ATS_PATTERNS :: "(string \<times> string list) list" where
  "ATS_PATTERNS =
     [(''greenhouse'', [''greenhouse.io'', ''boards.greenhouse.io'', ''job-boards.greenhouse.io'']),
      (''lever'', [''lever.co'', ''jobs.lever.co'']),
      (''workday'', [''myworkdayjobs.com'', ''wd1.myworkdayjobs.com'', ''wd5.myworkdayjobs.com'']),
      (''taleo'', [''taleo.net'', ''tbe.taleo.net'']),
      (''icims'', [''icims.com'', ''careers.icims.com'']),
      (''bamboohr'', [''bamboohr.com'']),
      (''jobvite'', [''jobvite.com'']),
      (''smartrecruiters'', [''smartrecruiters.com''])]"

definition ATS_DOM_SIGNATURES :: "(string \<times> string list) list" where
  "ATS_DOM_SIGNATURES =
     [(''greenhouse'', [''div[id*=\"application\"]'', ''div[class*=\"application\"]'',
                        ''form[id*=\"greenhouse\"]'']),
      (''lever'', [''div[class*=\"posting\"]'', ''div[class*=\"application-form\"]''])]"

text \<open>
  \<^verbatim>\<open>detect_ats_from_url\<close>: the inner loop over the patterns of one platform and
  the outer loop over the table, both leaving at the first match.
\<close>

fun any_pattern_in :: "string list \<Rightarrow> string \<Rightarrow> bool" where
  "any_pattern_in [] url_lower = False"
| "any_pattern_in (pattern # patterns) url_lower =
     (if contains pattern url_lower then True else any_pattern_in patterns url_lower)"

fun scan_url_table :: "(string \<times> string list) list \<Rightarrow> string \<Rightarrow> string" where
  "scan_url_table [] url_lower = ''unknown''"
| "scan_url_table ((ats_name, patterns) # table) url_lower =
     (if any_pattern_in patterns url_lower then ats_name else scan_url_table table url_lower)"

definition detect_ats_from_url :: "string \<Rightarrow> string" where
  "detect_ats_from_url url = (let url_lower = lower url in scan_url_table ATS_PATTERNS url_lower)"

text \<open>
  The browser: the URL of the page and \<^verbatim>\<open>find_elements\<close> by CSS selector, which
  gives the number of elements found, or \<open>None\<close> when it raises.
\<close>

record WebDriver =
  current_url :: string
  find_elements :: "string \<Rightarrow> nat option"

text \<open>
  \<^verbatim>\<open>detect_ats_from_dom\<close>. Besides the platform the model returns the selectors
  that were probed, in order. A selector on which \<^verbatim>\<open>find_elements\<close> raises is
  skipped (\<^verbatim>\<open>except: continue\<close>).
\<close>

fun probe_selectors :: "WebDriver \<Rightarrow> string list \<Rightarrow> bool \<times> string list" where
  "probe_selectors driver [] = (False, [])"
| "probe_selectors driver (selector # selectors) =
     (case find_elements driver selector of
        Some n \<Rightarrow>
          if n > 0 then (True, [selector])
          else (let (found, probed) = probe_selectors driver selectors in (found, selector # probed))
      | None \<Rightarrow>
          (let (found, probed) = probe_selectors driver selectors in (found, selector # probed)))"

fun scan_dom_table :: "WebDriver \<Rightarrow> (string \<times> string list) list \<Rightarrow> string \<times> string list" where
  "scan_dom_table driver [] = (''unknown'', [])"
| "scan_dom_table driver ((ats_name, selectors) # table) =
     (let (found, probed) = probe_selectors driver selectors
      in if found then (ats_name, probed)
         else (let (ats, probed') = scan_dom_table driver table in (ats, probed @ probed')))"

definition detect_ats_from_dom :: "WebDriver \<Rightarrow> string \<times> string list" where
  "detect_ats_from_dom driver = scan_dom_table driver ATS_DOM_SIGNATURES"

definition detect_ats_platform :: "WebDriver \<Rightarrow> string \<times> string list" where
  "detect_ats_platform driver =
     (let ats = detect_ats_from_url (current_url driver)
      in if ats \<noteq> ''unknown'' then (ats, [])
         else detect_ats_from_dom driver)"

text \<open>
  Two pages: a Greenhouse board whose DOM matches a Lever signature, and a page
  of an unknown host whose DOM matches a Lever signature.
\<close>

definition greenhouse_page_lever_dom :: WebDriver where
  "greenhouse_page_lever_dom =
     \<lparr>current_url = ''https://Boards.Greenhouse.io/acme/jobs/42'',
      find_elements = (\<lambda>selector. if selector = ''div[class*=\"posting\"]'' then Some 1 else Some 0)\<rparr>"

definition unknown_page_lever_dom :: WebDriver where
  "unknown_page_lever_dom =
     \<lparr>current_url = ''https://careers.example.com/apply'',
      find_elements = (\<lambda>selector. if selector = ''div[class*=\"posting\"]'' then Some 1 else None)\<rparr>"

text \<open>The platforms of the URL table that have a fragment in the lowered URL, in table order.\<close>

definition matching_platforms :: "string \<Rightarrow> string list" where
  "matching_platforms url_lower =
     map fst (filter (\<lambda>(ats_name, patterns). any_pattern_in patterns url_lower) ATS_PATTERNS)"

section \<open>Retry handler\<close>

text \<open>
  \<^verbatim>\<open>random.uniform(a, b)\<close> is \<^verbatim>\<open>a + (b - a) * random()\<close>; the draw \<open>r\<close> of
  \<^verbatim>\<open>random()\<close>, a number from 0 up to 1, is a parameter.
\<close>

definition uniform :: "real \<Rightarrow> real \<Rightarrow> real \<Rightarrow> real" where
  "uniform a b r = a + (b - a) * r"

definition exponential_backoff :: "int \<Rightarrow> real \<Rightarrow> real \<Rightarrow> real" where
  "exponential_backoff attempt base_delay r =
     (let delay = base_delay * (2 powi attempt);
          jitter = uniform 0 (delay * 0.1) r
      in delay + jitter)"

text \<open>
  What \<^verbatim>\<open>retry_with_backoff\<close> can raise: an exception of \<^verbatim>\<open>func\<close> or of the
  callback, the \<^verbatim>\<open>TypeError\<close> of \<^verbatim>\<open>raise None\<close> when the loop body never ran, the
  \<^verbatim>\<open>ValueError\<close> of \<^verbatim>\<open>sleep\<close> on a negative delay.
\<close>

datatype 'e raised = Raised 'e | TypeError | ValueError

text \<open>
  The state of a run: the world that \<^verbatim>\<open>func\<close> and the callback act on, the
  number of calls of \<^verbatim>\<open>func\<close> so far, and the delays slept so far.
\<close>

record 'w run =
  world :: 'w
  invocations :: nat
  slept :: "real list"

text \<open>
  The loop \<^verbatim>\<open>for attempt in range(max_retries + 1)\<close> over the attempts that are
  left. \<open>exceptions\<close> is the test \<^verbatim>\<open>isinstance(e, exceptions)\<close>; an exception that
  fails it leaves the function at once. \<open>rnd attempt\<close> is the draw used for the
  jitter of that attempt.
\<close>

fun attempts_loop ::
  "('w \<Rightarrow> ('e + 'a) \<times> 'w) \<Rightarrow> int \<Rightarrow> real \<Rightarrow> ('e \<Rightarrow> bool) \<Rightarrow>
   (int \<Rightarrow> 'e \<Rightarrow> 'w \<Rightarrow> ('e + unit) \<times> 'w) option \<Rightarrow> (int \<Rightarrow> real) \<Rightarrow>
   int list \<Rightarrow> 'e option \<Rightarrow> 'w run \<Rightarrow> ('e raised + 'a) \<times> 'w run" where
  "attempts_loop func max_retries base_delay exceptions on_retry rnd [] last_exception st =
     (case last_exception of
        None \<Rightarrow> (Inl TypeError, st)
      | Some e \<Rightarrow> (Inl (Raised e), st))"
| "attempts_loop func max_retries base_delay exceptions on_retry rnd (attempt # rest) last_exception st =
     (case func (world st) of
        (Inr v, w) \<Rightarrow> (Inr v, st\<lparr>world := w, invocations := invocations st + 1\<rparr>)
      | (Inl e, w) \<Rightarrow>
          (let st = st\<lparr>world := w, invocations := invocations st + 1\<rparr>
           in if \<not> exceptions e then (Inl (Raised e), st)
              else if attempt < max_retries then
                (let delay = exponential_backoff attempt base_delay (rnd attempt)
                 in case (case on_retry of
                            None \<Rightarrow> (Inr (), world st)
                          | Some callback \<Rightarrow> callback attempt e (world st)) of
                      (Inl e', w') \<Rightarrow> (Inl (Raised e'), st\<lparr>world := w'\<rparr>)
                    | (Inr u, w') \<Rightarrow>
                        if delay < 0 then (Inl ValueError, st\<lparr>world := w'\<rparr>)
                        else attempts_loop func max_retries base_delay exceptions on_retry rnd rest
                               (Some e) (st\<lparr>world := w', slept := slept st @ [delay]\<rparr>))
              else attempts_loop func max_retries base_delay exceptions on_retry rnd rest
                     (Some e) st))"

definition retry_with_backoff ::
  "('w \<Rightarrow> ('e + 'a) \<times> 'w) \<Rightarrow> int \<Rightarrow> real \<Rightarrow> ('e \<Rightarrow> bool) \<Rightarrow>
   (int \<Rightarrow> 'e \<Rightarrow> 'w \<Rightarrow> ('e + unit) \<times> 'w) option \<Rightarrow> (int \<Rightarrow> real) \<Rightarrow>
   'w \<Rightarrow> ('e raised + 'a) \<times> 'w run" where
  "retry_with_backoff func max_retries base_delay exceptions on_retry rnd w =
     attempts_loop func max_retries base_delay exceptions on_retry rnd [0..max_retries] None
       \<lparr>world = w, invocations = 0, slept = []\<rparr>"

text \<open>A function that counts its calls and fails with the number of the call.\<close>

definition always_failing :: "nat \<Rightarrow> (nat + unit) \<times> nat" where
  "always_failing n = (Inl (n + 1), n + 1)"

section \<open>Properties of the smart filter\<close>

text \<open>
  Claim C6. A company is skipped exactly when it is in the rejected-companies
  table and its recorded rejection count is at least the threshold. With
  threshold 2 a recorded count of 2 is skipped and a recorded count of 1 is not,
  and a company that is not in the table is never skipped, whatever the
  threshold.
\<close>

theorem should_skip_company_iff:
  "(should_skip_company self company threshold \<longleftrightarrow>
      (\<exists>e. companies_table self company = Some e \<and> recorded_count e \<ge> threshold))
   \<and> (companies_table self company = Some e2 \<and> rejection_count e2 = Some 2
        \<longrightarrow> should_skip_company self company 2)
   \<and> (companies_table self company = Some e1 \<and> rejection_count e1 = Some 1
        \<longrightarrow> \<not> should_skip_company self company 2)
   \<and> (companies_table self company = None
        \<longrightarrow> \<not> should_skip_company self company threshold)"
  by (auto simp: should_skip_company_def recorded_count_def split: option.splits)

theorem should_skip_company_witness:
  "should_skip_company example_filter ''Acme'' 2
   \<and> \<not> should_skip_company example_filter ''Initech'' 2
   \<and> \<not> should_skip_company example_filter ''Globex'' 0"
proof -
  have acme: "companies_table example_filter ''Acme'' = Some acme_twice
      \<and> rejection_count acme_twice = Some 2"
    by (simp add: companies_table_def example_filter_def acme_twice_def)
  have initech: "companies_table example_filter ''Initech'' = Some initech_once
      \<and> rejection_count initech_once = Some 1"
    by (simp add: companies_table_def example_filter_def initech_once_def)
  have globex: "companies_table example_filter ''Globex'' = None"
    by (simp add: companies_table_def example_filter_def)
  from acme should_skip_company_iff [of example_filter "''Acme''" 2 acme_twice]
  have 1: "should_skip_company example_filter ''Acme'' 2" by blast
  from initech should_skip_company_iff [of example_filter "''Initech''" 2 _ initech_once]
  have 2: "\<not> should_skip_company example_filter ''Initech'' 2" by blast
  from globex should_skip_company_iff [of example_filter "''Globex''" 0]
  have 3: "\<not> should_skip_company example_filter ''Globex'' 0" by blast
  from 1 2 3 show ?thesis by simp
qed

text \<open>
  Claim C7. For 5 applicants, a posting of the same day, easy apply and no
  rejection the score is 50 + 20 + 15 + 10 = 95, and for all inputs the score is
  between 0 and 100.
\<close>

theorem calculate_job_priority_range:
  "calculate_job_priority (Some 5) (Some 0) True 0 = 95
   \<and> 0 \<le> calculate_job_priority applicant_count days_posted is_easy_apply company_rejection_count
   \<and> calculate_job_priority applicant_count days_posted is_easy_apply company_rejection_count \<le> 100"
  by (simp add: calculate_job_priority_def applicant_bonus_def recency_bonus_def Let_def)

text \<open>
  Claim C3. The method of \<^verbatim>\<open>smart_filter.py\<close> gives 37 for ``37 applicants'' and
  150, which is at least 100, for ``Over 100 applicants''. For ``Be in the first
  50 applicants'' it gives 50 and not 25: the rule ``N applicant'' matches
  ``50 applicants'' before the rule ``first N'' is tried, which only decides a
  text such as ``Be in the first 50''. The function of \<^verbatim>\<open>smart_filters.py\<close> gives
  37, 100 and 50.
\<close>

theorem extract_applicant_count_phrasings:
  "SmartFilter_extract_applicant_count ''37 applicants'' = Some 37
   \<and> SmartFilter_extract_applicant_count ''Over 100 applicants'' = Some 150
   \<and> SmartFilter_extract_applicant_count ''Be in the first 50 applicants'' = Some 50
   \<and> SmartFilter_extract_applicant_count ''Be in the first 50'' = Some 25
   \<and> extract_applicant_count (\<lambda>selector. Some ''37 applicants'') = Some 37
   \<and> extract_applicant_count (\<lambda>selector. Some ''Over 100 applicants'') = Some 100
   \<and> extract_applicant_count (\<lambda>selector. Some ''Be in the first 50 applicants'') = Some 50"
  by (simp add: SmartFilter_extract_applicant_count_def extract_applicant_count_def
      applicant_selectors_def lower_def lower_char_def
      match_word_digits_def match_digits_word_def match_digits_def is_digit_def is_space_def
      int_of_digits_def digit_value_def Let_def)

section \<open>Properties of the session checkpoint\<close>

text \<open>
  Claim C5. \<^verbatim>\<open>should_resume\<close> is true exactly when the checkpoint file holds a
  timestamp that is less than 24 hours before the time of the check. A
  checkpoint written 25 hours ago is not resumed, one written 1 hour ago is.
\<close>

theorem should_resume_iff:
  "(should_resume now f \<longleftrightarrow>
      (\<exists>t. f = Checkpoint (Timestamp t) \<and> now - t < hours 24))
   \<and> \<not> should_resume now (Checkpoint (Timestamp (now - hours 25)))
   \<and> should_resume now (Checkpoint (Timestamp (now - hours 1)))"
  by (auto simp: should_resume_def total_seconds_def hours_def Let_def
           split: checkpoint_file.splits timestamp_field.splits)

section \<open>Properties of the field knowledge base\<close>

lemma platform_entry_learn:
  "platform_entry (learn_field_mapping i t p kb) q j =
     (if p \<noteq> ''unknown'' \<and> q = p \<and> j = i \<and> platform_entry kb p i = None then Some t
      else platform_entry kb q j)"
  by (auto simp: platform_entry_def learn_field_mapping_def Let_def split: option.splits)

lemma platform_entry_kept:
  "platform_entry kb p i = Some t \<Longrightarrow> platform_entry (learn_field_mapping j t2 q kb) p i = Some t"
  by (auto simp: platform_entry_learn)

lemma platform_entry_learn_all:
  "platform_entry kb p i = Some t \<Longrightarrow> platform_entry (learn_all calls kb) p i = Some t"
  by (induction calls arbitrary: kb) (auto simp: platform_entry_kept)

lemma get_field_type_platform:
  "p \<noteq> ''unknown'' \<Longrightarrow> platform_entry kb p i = Some t \<Longrightarrow> get_field_type i p kb = Some t"
  by (auto simp: get_field_type_def platform_entry_def split: option.splits)

lemma get_field_type_general:
  "get_field_type i ''unknown'' kb = general_lookup kb i"
  by (simp add: get_field_type_def)

lemma map_of_dict_set: "map_of (dict_set k v m) = (map_of m)(k \<mapsto> v)"
  by (induction m) (auto simp: fun_eq_iff)

lemma map_of_count_mapping:
  "map_of (count_mapping t m) t = Some ((case map_of m t of None \<Rightarrow> 0 | Some c \<Rightarrow> c) + 1)"
  by (simp add: count_mapping_def Let_def map_of_dict_set split: option.splits)

lemma field_mappings_learn:
  "field_mappings (learn_field_mapping i t p kb) j =
     (if j = i then Some (count_mapping t (case field_mappings kb i of None \<Rightarrow> [] | Some m \<Rightarrow> m))
      else field_mappings kb j)"
  by (simp add: learn_field_mapping_def Let_def)

lemma count_mapping_first: "count_mapping t [] = [(t, 1)]"
  by (simp add: count_mapping_def)

lemma count_mapping_second: "t2 \<noteq> t \<Longrightarrow> count_mapping t2 [(t, c)] = [(t, c), (t2, 1)]"
  by (simp add: count_mapping_def)

lemma count_mapping_again: "t2 \<noteq> t \<Longrightarrow> count_mapping t2 [(t, c), (t2, n)] = [(t, c), (t2, n + 1)]"
  by (simp add: count_mapping_def)

lemma field_mappings_taught:
  assumes "field_mappings kb i = None" and "t2 \<noteq> t"
  shows "field_mappings (((learn_field_mapping i t2 p) ^^ Suc n) (learn_field_mapping i t p kb)) i
           = Some [(t, 1), (t2, int (Suc n))]"
proof (induction n)
  case 0
  show ?case using assms
    by (simp add: field_mappings_learn count_mapping_first count_mapping_second)
next
  case (Suc n)
  show ?case using assms(2) Suc
    by (simp add: field_mappings_learn count_mapping_again add.commute)
qed

lemma max_key_two: "max_key [(t, 1), (t2, n)] = Some (if n > 1 then t2 else t)"
  by (simp add: max_key_def)

lemma platform_entry_funpow:
  "platform_entry kb p i = Some t \<Longrightarrow>
   platform_entry (((learn_field_mapping j t2 q) ^^ n) kb) p i = Some t"
  by (induction n) (auto simp: platform_entry_kept)

text \<open>
  Claim C1, as it holds on the code. Let the knowledge base hold nothing for the
  identifier: no general counts and no entry for the platform \<open>p\<close>. After
  \<^verbatim>\<open>learn_field_mapping(id, t, p)\<close> the lookup \<^verbatim>\<open>get_field_type(id, p)\<close> returns
  \<open>t\<close>. When a different type \<open>t2\<close> is then taught \<open>n\<close> times for the same
  identifier and platform, the general counts are 1 for \<open>t\<close> and \<open>n\<close> for \<open>t2\<close>;
  the general lookup (platform ``unknown'') returns \<open>t2\<close> exactly when \<open>n > 1\<close>,
  that is when the count of \<open>t2\<close> exceeds the count of \<open>t\<close>, and on a tie it
  stays with \<open>t\<close>; the lookup for a platform \<open>p\<close> other than ``unknown'' returns
  \<open>t\<close> for every \<open>n\<close>.
\<close>

theorem knowledge_round_trip:
  assumes "field_mappings kb i = None" and "platform_entry kb p i = None" and "t2 \<noteq> t"
  shows "get_field_type i p (learn_field_mapping i t p kb) = Some t
    \<and> (n \<ge> 1 \<longrightarrow> field_mappings (((learn_field_mapping i t2 p) ^^ n) (learn_field_mapping i t p kb)) i
           = Some [(t, 1), (t2, int n)])
    \<and> get_field_type i ''unknown'' (((learn_field_mapping i t2 p) ^^ n) (learn_field_mapping i t p kb))
        = Some (if n > 1 then t2 else t)
    \<and> (p \<noteq> ''unknown'' \<longrightarrow>
         get_field_type i p (((learn_field_mapping i t2 p) ^^ n) (learn_field_mapping i t p kb)) = Some t)"
proof -
  let ?kb1 = "learn_field_mapping i t p kb"
  let ?kbn = "((learn_field_mapping i t2 p) ^^ n) ?kb1"
  have fm1: "field_mappings ?kb1 i = Some [(t, 1)]"
    using assms(1) by (simp add: field_mappings_learn count_mapping_first)
  have pe1: "p \<noteq> ''unknown'' \<Longrightarrow> platform_entry ?kb1 p i = Some t"
    using assms(2) by (simp add: platform_entry_learn)
  have first: "get_field_type i p ?kb1 = Some t"
  proof (cases "p = ''unknown''")
    case True
    then show ?thesis using fm1 by (simp add: get_field_type_general general_lookup_def max_key_def)
  next
    case False
    then show ?thesis using pe1 by (simp add: get_field_type_platform)
  qed
  have counts: "n \<ge> 1 \<longrightarrow> field_mappings ?kbn i = Some [(t, 1), (t2, int n)]"
  proof
    assume "n \<ge> 1"
    then obtain k where "n = Suc k" by (cases n) auto
    then show "field_mappings ?kbn i = Some [(t, 1), (t2, int n)]"
      using field_mappings_taught [OF assms(1) assms(3), where p = p and n = k] by simp
  qed
  have general: "get_field_type i ''unknown'' ?kbn = Some (if n > 1 then t2 else t)"
  proof (cases n)
    case 0
    then show ?thesis using fm1 by (simp add: get_field_type_general general_lookup_def max_key_def)
  next
    case (Suc k)
    then have "field_mappings ?kbn i = Some [(t, 1), (t2, int n)]" using counts by simp
    then show ?thesis by (simp add: get_field_type_general general_lookup_def max_key_two)
  qed
  have scoped: "p \<noteq> ''unknown'' \<longrightarrow> get_field_type i p ?kbn = Some t"
    using pe1 by (simp add: platform_entry_funpow get_field_type_platform)
  from first counts general scoped show ?thesis by blast
qed

theorem knowledge_round_trip_witness:
  "get_field_type ''email_addr'' ''greenhouse''
     (learn_field_mapping ''email_addr'' ''email'' ''greenhouse'' empty_knowledge) = Some ''email''
   \<and> field_mappings
       (((learn_field_mapping ''email_addr'' ''phone'' ''greenhouse'') ^^ 2)
          (learn_field_mapping ''email_addr'' ''email'' ''greenhouse'' empty_knowledge)) ''email_addr''
       = Some [(''email'', 1), (''phone'', 2)]
   \<and> get_field_type ''email_addr'' ''unknown''
       (((learn_field_mapping ''email_addr'' ''phone'' ''greenhouse'') ^^ 2)
          (learn_field_mapping ''email_addr'' ''email'' ''greenhouse'' empty_knowledge)) = Some ''phone''
   \<and> get_field_type ''email_addr'' ''greenhouse''
       (((learn_field_mapping ''email_addr'' ''phone'' ''greenhouse'') ^^ 2)
          (learn_field_mapping ''email_addr'' ''email'' ''greenhouse'' empty_knowledge)) = Some ''email''"
proof -
  have a: "field_mappings empty_knowledge ''email_addr'' = None"
    by (simp add: empty_knowledge_def)
  have b: "platform_entry empty_knowledge ''greenhouse'' ''email_addr'' = None"
    by (simp add: empty_knowledge_def platform_entry_def)
  have c: "''phone'' \<noteq> ''email''" by simp
  have d: "''greenhouse'' \<noteq> ''unknown''" by simp
  from knowledge_round_trip [OF a b c, where n = 2] d
  show ?thesis by simp
qed

text \<open>
  Claim C1 as stated fails for a lookup with a platform: after ``email'' was
  taught once and ``phone'' twice for the platform ``greenhouse'', the counts
  are 1 and 2, and the lookup for ``greenhouse'' still returns ``email''.
\<close>

theorem knowledge_switch_counterexample:
  "get_field_type ''email_addr'' ''greenhouse''
     (learn_all [(''email_addr'', ''email'', ''greenhouse''),
                 (''email_addr'', ''phone'', ''greenhouse''),
                 (''email_addr'', ''phone'', ''greenhouse'')] empty_knowledge) = Some ''email''
   \<and> field_mappings
       (learn_all [(''email_addr'', ''email'', ''greenhouse''),
                   (''email_addr'', ''phone'', ''greenhouse''),
                   (''email_addr'', ''phone'', ''greenhouse'')] empty_knowledge) ''email_addr''
       = Some [(''email'', 1), (''phone'', 2)]"
  by (simp add: get_field_type_def general_lookup_def learn_field_mapping_def
      empty_knowledge_def count_mapping_def max_key_def Let_def)

text \<open>
  Claim C10. For a platform \<open>p\<close> other than ``unknown'': a call
  \<^verbatim>\<open>learn_field_mapping(id, t, p)\<close> on a knowledge base without an entry for
  \<open>(p, id)\<close> stores \<open>t\<close>. Once the entry for \<open>(p, id)\<close> is \<open>t\<close>, a further call
  with any type \<open>t2\<close> leaves the whole platform-specific table unchanged and adds
  one to the general count of \<open>t2\<close>; after any sequence of calls, for any
  identifiers, types and platforms, the entry is still \<open>t\<close> and
  \<^verbatim>\<open>get_field_type(id, p)\<close> returns \<open>t\<close>.
\<close>

theorem platform_mapping_write_once:
  assumes "p \<noteq> ''unknown''"
  shows "(platform_entry kb p i = None \<longrightarrow>
           platform_entry (learn_field_mapping i t p kb) p i = Some t)
    \<and> (platform_entry kb p i = Some t \<longrightarrow>
           platform_entry (learn_field_mapping i t2 p kb) p i = Some t
         \<and> ats_specific_mappings (learn_field_mapping i t2 p kb) = ats_specific_mappings kb
         \<and> map_of (case field_mappings (learn_field_mapping i t2 p kb) i of None \<Rightarrow> [] | Some m \<Rightarrow> m) t2
             = Some ((case map_of (case field_mappings kb i of None \<Rightarrow> [] | Some m \<Rightarrow> m) t2 of
                        None \<Rightarrow> 0 | Some c \<Rightarrow> c) + 1)
         \<and> platform_entry (learn_all calls kb) p i = Some t
         \<and> get_field_type i p (learn_all calls kb) = Some t)"
proof -
  have stored: "platform_entry kb p i = None \<longrightarrow>
      platform_entry (learn_field_mapping i t p kb) p i = Some t"
    using assms by (simp add: platform_entry_learn)
  have same: "platform_entry kb p i = Some t \<Longrightarrow>
      ats_specific_mappings (learn_field_mapping i t2 p kb) = ats_specific_mappings kb"
    using assms
    by (auto simp: platform_entry_def learn_field_mapping_def Let_def fun_upd_idem
             split: option.splits)
  have count: "map_of (case field_mappings (learn_field_mapping i t2 p kb) i of
                   None \<Rightarrow> [] | Some m \<Rightarrow> m) t2
      = Some ((case map_of (case field_mappings kb i of None \<Rightarrow> [] | Some m \<Rightarrow> m) t2 of
                 None \<Rightarrow> 0 | Some c \<Rightarrow> c) + 1)"
    by (simp add: field_mappings_learn map_of_count_mapping)
  have kept: "platform_entry kb p i = Some t \<Longrightarrow>
      platform_entry (learn_all calls kb) p i = Some t"
    by (rule platform_entry_learn_all)
  show ?thesis
    using stored same count kept assms
    by (auto simp: platform_entry_kept get_field_type_platform)
qed

theorem platform_mapping_write_once_witness:
  "platform_entry (learn_field_mapping ''email_addr'' ''email'' ''greenhouse'' empty_knowledge)
      ''greenhouse'' ''email_addr'' = Some ''email''
   \<and> get_field_type ''email_addr'' ''greenhouse''
       (learn_all [(''email_addr'', ''phone'', ''greenhouse''), (''email_addr'', ''phone'', ''greenhouse'')]
          (learn_field_mapping ''email_addr'' ''email'' ''greenhouse'' empty_knowledge)) = Some ''email''"
proof -
  have d: "''greenhouse'' \<noteq> ''unknown''" by simp
  have b: "platform_entry empty_knowledge ''greenhouse'' ''email_addr'' = None"
    by (simp add: empty_knowledge_def platform_entry_def)
  from platform_mapping_write_once [OF d, of empty_knowledge "''email_addr''" "''email''"] b
  have s: "platform_entry (learn_field_mapping ''email_addr'' ''email'' ''greenhouse'' empty_knowledge)
      ''greenhouse'' ''email_addr'' = Some ''email''" by blast
  from platform_mapping_write_once [OF d,
      of "learn_field_mapping ''email_addr'' ''email'' ''greenhouse'' empty_knowledge"
         "''email_addr''" "''email''" "''phone''"
         "[(''email_addr'', ''phone'', ''greenhouse''), (''email_addr'', ''phone'', ''greenhouse'')]"] s
  show ?thesis by blast
qed

section \<open>Properties of the AI classification\<close>

text \<open>
  Claim C4, as it holds on the code. The classifier returns ``unknown'' when the
  call raises or does not give a text, so no failure leaves it. For a text it
  returns the text, stripped and lowered, and does not compare it with the list
  of categories: the result is outside the list exactly when the service
  answered with a text that, stripped and lowered, is outside the list.
\<close>

theorem classify_field_with_gemini_cases:
  "classify_field_with_gemini CallFails = ''unknown''
   \<and> classify_field_with_gemini NotText = ''unknown''
   \<and> classify_field_with_gemini (Text r) = lower (strip r)
   \<and> (classify_field_with_gemini response \<notin> set allowed_tags
        \<longleftrightarrow> (\<exists>t. response = Text t \<and> lower (strip t) \<notin> set allowed_tags))"
  by (cases response) (simp_all add: classify_field_with_gemini_def allowed_tags_def)

text \<open>
  Claim C4 as stated fails for an answer outside the list: ``banana'' is
  returned as it is, not as ``unknown''.
\<close>

theorem classify_field_with_gemini_counterexample:
  "classify_field_with_gemini (Text ''banana'') = ''banana''
   \<and> ''banana'' \<notin> set allowed_tags \<and> ''banana'' \<noteq> ''unknown''"
  by (simp add: classify_field_with_gemini_def allowed_tags_def strip_def is_space_def
      lower_def lower_char_def)

section \<open>Properties of the ATS detector\<close>

lemma startswith_iff: "startswith s p \<longleftrightarrow> (\<exists>b. s = p @ b)"
  by (induction s p rule: startswith.induct) auto

lemma contains_iff: "contains pat s \<longleftrightarrow> (\<exists>a b. s = a @ pat @ b)"
proof (induction s)
  case Nil
  then show ?case by auto
next
  case (Cons c cs)
  show ?case
  proof
    assume "contains pat (c # cs)"
    then consider "startswith (c # cs) pat" | "contains pat cs" by auto
    then show "\<exists>a b. c # cs = a @ pat @ b"
    proof cases
      case 1
      then obtain b where "c # cs = pat @ b" by (auto simp: startswith_iff)
      then have "c # cs = [] @ pat @ b" by simp
      then show ?thesis by blast
    next
      case 2
      then obtain a b where "cs = a @ pat @ b" using Cons.IH by auto
      then have "c # cs = (c # a) @ pat @ b" by simp
      then show ?thesis by blast
    qed
  next
    assume "\<exists>a b. c # cs = a @ pat @ b"
    then obtain a b where ab: "c # cs = a @ pat @ b" by blast
    show "contains pat (c # cs)"
    proof (cases a)
      case Nil
      then have "startswith (c # cs) pat" using ab by (auto simp: startswith_iff)
      then show ?thesis by simp
    next
      case (Cons x xs)
      then have "cs = xs @ pat @ b" using ab by simp
      then have "contains pat cs" using Cons.IH by blast
      then show ?thesis by simp
    qed
  qed
qed

lemma any_pattern_in_iff: "any_pattern_in patterns u \<longleftrightarrow> (\<exists>p \<in> set patterns. contains p u)"
  by (induction patterns) auto

lemma scan_url_table_first:
  "scan_url_table table u =
     (case map fst (filter (\<lambda>(ats_name, patterns). any_pattern_in patterns u) table) of
        [] \<Rightarrow> ''unknown''
      | ats_name # rest \<Rightarrow> ats_name)"
  by (induction table) auto

lemma detect_ats_from_url_first:
  "detect_ats_from_url url =
     (case matching_platforms (lower url) of [] \<Rightarrow> ''unknown'' | ats_name # rest \<Rightarrow> ats_name)"
  by (simp add: detect_ats_from_url_def matching_platforms_def scan_url_table_first)

lemma matching_platforms_known: "''unknown'' \<notin> set (matching_platforms u)"
  by (auto simp: matching_platforms_def ATS_PATTERNS_def)

lemma matching_platforms_member:
  assumes "(ats_name, patterns) \<in> set ATS_PATTERNS" and "pattern \<in> set patterns"
    and "contains pattern u"
  shows "ats_name \<in> set (matching_platforms u)"
proof -
  have "any_pattern_in patterns u" using assms(2,3) by (auto simp: any_pattern_in_iff)
  then have "(ats_name, patterns) \<in> set (filter (\<lambda>(n, ps). any_pattern_in ps u) ATS_PATTERNS)"
    using assms(1) by simp
  then show ?thesis unfolding matching_platforms_def by force
qed

lemma contains_longer:
  assumes "contains (a @ p) u" shows "contains p u"
proof -
  from assms obtain x y where "u = x @ (a @ p) @ y" by (auto simp: contains_iff)
  then have "u = (x @ a) @ p @ y" by simp
  then show ?thesis unfolding contains_iff by blast
qed

lemma greenhouse_first:
  assumes "contains ''boards.greenhouse.io'' u"
  shows "scan_url_table ATS_PATTERNS u = ''greenhouse''"
proof -
  have "contains ''greenhouse.io'' u"
    using contains_longer [of "''boards.''" "''greenhouse.io''" u] assms by simp
  then show ?thesis by (simp add: ATS_PATTERNS_def)
qed

text \<open>
  Claim C8. Detection consults the URL table before the DOM signatures. When
  the lowered URL contains a fragment of a platform of the table, detection
  returns a platform of the URL table without probing the DOM: the first one in
  table order that has a fragment in the URL (first match wins, the order of the
  table breaks ties), which is the platform of the fragment when no other
  platform matches. A URL that contains ``boards.greenhouse.io'', in any case
  of the letters, gives ``greenhouse'' whatever the DOM holds. The DOM is probed
  only when the URL gives ``unknown'', and then the result is the one of the DOM.
\<close>

theorem detect_ats_platform_url_first:
  "((ats_name, patterns) \<in> set ATS_PATTERNS \<and> pattern \<in> set patterns
      \<and> contains pattern (lower (current_url driver))
     \<longrightarrow> (\<exists>rest. matching_platforms (lower (current_url driver))
                    = fst (detect_ats_platform driver) # rest)
         \<and> ats_name \<in> set (matching_platforms (lower (current_url driver)))
         \<and> snd (detect_ats_platform driver) = [])
   \<and> (matching_platforms (lower (current_url driver)) = [ats_name]
        \<longrightarrow> detect_ats_platform driver = (ats_name, []))
   \<and> (contains ''boards.greenhouse.io'' (lower (current_url driver))
        \<longrightarrow> detect_ats_platform driver = (''greenhouse'', []))
   \<and> (snd (detect_ats_platform driver) \<noteq> []
        \<longrightarrow> detect_ats_from_url (current_url driver) = ''unknown'')
   \<and> (detect_ats_from_url (current_url driver) = ''unknown''
        \<longrightarrow> detect_ats_platform driver = detect_ats_from_dom driver)"
proof -
  let ?u = "lower (current_url driver)"
  have part1: "(\<exists>rest. matching_platforms ?u = fst (detect_ats_platform driver) # rest)
      \<and> ats_name \<in> set (matching_platforms ?u) \<and> snd (detect_ats_platform driver) = []"
    if h: "(ats_name, patterns) \<in> set ATS_PATTERNS \<and> pattern \<in> set patterns \<and> contains pattern ?u"
  proof -
    have mem: "ats_name \<in> set (matching_platforms ?u)"
      using h matching_platforms_member by blast
    then obtain n rest where nr: "matching_platforms ?u = n # rest"
      by (cases "matching_platforms ?u") auto
    then have url: "detect_ats_from_url (current_url driver) = n"
      by (simp add: detect_ats_from_url_first)
    have "n \<noteq> ''unknown''"
      using matching_platforms_known [of ?u] nr by auto
    then have "detect_ats_platform driver = (n, [])"
      using url by (simp add: detect_ats_platform_def)
    then show ?thesis using nr mem by simp
  qed
  have only: "detect_ats_platform driver = (ats_name, [])"
    if m: "matching_platforms ?u = [ats_name]"
  proof -
    have "ats_name \<noteq> ''unknown''"
      using matching_platforms_known [of ?u] m by auto
    then show ?thesis
      using m by (simp add: detect_ats_platform_def detect_ats_from_url_first)
  qed
  have part2: "detect_ats_platform driver = (''greenhouse'', [])"
    if "contains ''boards.greenhouse.io'' ?u"
    using greenhouse_first [OF that]
    by (simp add: detect_ats_platform_def detect_ats_from_url_def)
  have part3: "snd (detect_ats_platform driver) \<noteq> []
      \<longrightarrow> detect_ats_from_url (current_url driver) = ''unknown''"
    by (auto simp: detect_ats_platform_def Let_def)
  have part4: "detect_ats_from_url (current_url driver) = ''unknown''
      \<longrightarrow> detect_ats_platform driver = detect_ats_from_dom driver"
    by (simp add: detect_ats_platform_def)
  from part1 only part2 part3 part4 show ?thesis by blast
qed

lemma url_lower_greenhouse:
  "lower (current_url greenhouse_page_lever_dom) = ''https://boards.greenhouse.io/acme/jobs/42''"
  by (simp add: greenhouse_page_lever_dom_def lower_def lower_char_def)

lemma url_unknown_page:
  "detect_ats_from_url (current_url unknown_page_lever_dom) = ''unknown''"
  by (simp add: unknown_page_lever_dom_def detect_ats_from_url_def ATS_PATTERNS_def
      lower_def lower_char_def)

theorem detect_ats_platform_url_first_witness:
  "detect_ats_platform greenhouse_page_lever_dom = (''greenhouse'', [])
   \<and> ''greenhouse'' \<in> set (matching_platforms (lower (current_url greenhouse_page_lever_dom)))
   \<and> detect_ats_platform unknown_page_lever_dom = detect_ats_from_dom unknown_page_lever_dom
   \<and> fst (detect_ats_platform unknown_page_lever_dom) = ''lever''"
proof -
  have g: "contains ''boards.greenhouse.io'' (lower (current_url greenhouse_page_lever_dom))"
    unfolding url_lower_greenhouse by simp
  have t: "(''greenhouse'', [''greenhouse.io'', ''boards.greenhouse.io'', ''job-boards.greenhouse.io''])
             \<in> set ATS_PATTERNS
           \<and> ''boards.greenhouse.io''
             \<in> set [''greenhouse.io'', ''boards.greenhouse.io'', ''job-boards.greenhouse.io'']"
    by (simp add: ATS_PATTERNS_def)
  from detect_ats_platform_url_first [of "''greenhouse''"
      "[''greenhouse.io'', ''boards.greenhouse.io'', ''job-boards.greenhouse.io'']"
      "''boards.greenhouse.io''" greenhouse_page_lever_dom] g t
  have 1: "detect_ats_platform greenhouse_page_lever_dom = (''greenhouse'', [])
      \<and> ''greenhouse'' \<in> set (matching_platforms (lower (current_url greenhouse_page_lever_dom)))"
    by blast
  from detect_ats_platform_url_first [of _ _ _ unknown_page_lever_dom] url_unknown_page
  have 2: "detect_ats_platform unknown_page_lever_dom = detect_ats_from_dom unknown_page_lever_dom"
    by blast
  have 3: "fst (detect_ats_from_dom unknown_page_lever_dom) = ''lever''"
    by (simp add: detect_ats_from_dom_def ATS_DOM_SIGNATURES_def unknown_page_lever_dom_def)
  from 1 2 3 show ?thesis by simp
qed

section \<open>Properties of the retry handler\<close>

lemma exponential_backoff_nonneg:
  "0 \<le> base_delay \<Longrightarrow> 0 \<le> r \<Longrightarrow> 0 \<le> exponential_backoff attempt base_delay r"
  by (simp add: exponential_backoff_def uniform_def Let_def)

lemma loop_retry:
  assumes "func (world st) = (Inl e, w)" and "exceptions e" and "attempt < max_retries"
    and "0 \<le> base_delay" and "0 \<le> rnd attempt"
  shows "attempts_loop func max_retries base_delay exceptions None rnd (attempt # rest) last_exception st =
         attempts_loop func max_retries base_delay exceptions None rnd rest (Some e)
           (st\<lparr>world := w, invocations := invocations st + 1,
               slept := slept st @ [exponential_backoff attempt base_delay (rnd attempt)]\<rparr>)"
  using assms exponential_backoff_nonneg [of base_delay "rnd attempt" attempt]
  by (simp add: Let_def)

lemma loop_last:
  assumes "func (world st) = (Inl e, w)" and "exceptions e" and "\<not> attempt < max_retries"
  shows "attempts_loop func max_retries base_delay exceptions on_retry rnd (attempt # rest) last_exception st =
         attempts_loop func max_retries base_delay exceptions on_retry rnd rest (Some e)
           (st\<lparr>world := w, invocations := invocations st + 1\<rparr>)"
  using assms by (simp add: Let_def)

lemma upto_0_3: "[0..3::int] = [0, 1, 2, 3]"
  by (simp add: upto.simps)

text \<open>
  Claim C2. Let \<^verbatim>\<open>func\<close> raise an exception of the retried classes on every call,
  and let every draw of the random generator be at least 0. Then
  \<^verbatim>\<open>retry_with_backoff(func, max_retries=3, base_delay=2.0)\<close> calls \<^verbatim>\<open>func\<close> exactly
  4 times, sleeps 3 times, and raises the exception of the fourth call; it
  returns no value.
\<close>

theorem retry_with_backoff_exhausts:
  assumes fails: "\<forall>w. \<exists>e w'. func w = (Inl e, w') \<and> exceptions e"
    and rnd: "\<forall>k. 0 \<le> rnd k"
  shows "\<exists>e st. retry_with_backoff func 3 2 exceptions None rnd w0 = (Inl (Raised e), st)
           \<and> invocations st = 4
           \<and> fst (func (((snd \<circ> func) ^^ 3) w0)) = Inl e
           \<and> world st = ((snd \<circ> func) ^^ 4) w0
           \<and> length (slept st) = 3"
proof -
  from fails obtain e1 w1 where c1: "func w0 = (Inl e1, w1)" and x1: "exceptions e1" by blast
  from fails obtain e2 w2 where c2: "func w1 = (Inl e2, w2)" and x2: "exceptions e2" by blast
  from fails obtain e3 w3 where c3: "func w2 = (Inl e3, w3)" and x3: "exceptions e3" by blast
  from fails obtain e4 w4 where c4: "func w3 = (Inl e4, w4)" and x4: "exceptions e4" by blast
  let ?loop = "attempts_loop func 3 2 exceptions None rnd"
  let ?s0 = "\<lparr>world = w0, invocations = 0, slept = []\<rparr>"
  let ?s1 = "\<lparr>world = w1, invocations = Suc 0, slept = [exponential_backoff 0 2 (rnd 0)]\<rparr>"
  let ?s2 = "\<lparr>world = w2, invocations = Suc (Suc 0),
               slept = [exponential_backoff 0 2 (rnd 0), exponential_backoff 1 2 (rnd 1)]\<rparr>"
  let ?s3 = "\<lparr>world = w3, invocations = Suc (Suc (Suc 0)),
               slept = [exponential_backoff 0 2 (rnd 0), exponential_backoff 1 2 (rnd 1),
                        exponential_backoff 2 2 (rnd 2)]\<rparr>"
  let ?s4 = "\<lparr>world = w4, invocations = Suc (Suc (Suc (Suc 0))),
               slept = [exponential_backoff 0 2 (rnd 0), exponential_backoff 1 2 (rnd 1),
                        exponential_backoff 2 2 (rnd 2)]\<rparr>"
  have r0: "0 \<le> rnd 0" and r1: "0 \<le> rnd 1" and r2: "0 \<le> rnd 2" using rnd by auto
  have a1: "?loop [0, 1, 2, 3] None ?s0 = ?loop [1, 2, 3] (Some e1) ?s1"
    using loop_retry [of func ?s0 e1 w1 exceptions 0 3 2 rnd "[1, 2, 3]" None] c1 x1 r0 by (simp del: attempts_loop.simps)
  have a2: "?loop [1, 2, 3] (Some e1) ?s1 = ?loop [2, 3] (Some e2) ?s2"
    using loop_retry [of func ?s1 e2 w2 exceptions 1 3 2 rnd "[2, 3]" "Some e1"] c2 x2 r1 by (simp del: attempts_loop.simps)
  have a3: "?loop [2, 3] (Some e2) ?s2 = ?loop [3] (Some e3) ?s3"
    using loop_retry [of func ?s2 e3 w3 exceptions 2 3 2 rnd "[3]" "Some e2"] c3 x3 r2 by (simp del: attempts_loop.simps)
  have a4: "?loop [3] (Some e3) ?s3 = ?loop [] (Some e4) ?s4"
    using loop_last [of func ?s3 e4 w4 exceptions 3 3 2 None rnd "[]" "Some e3"] c4 x4 by (simp del: attempts_loop.simps)
  have res: "retry_with_backoff func 3 2 exceptions None rnd w0 = (Inl (Raised e4), ?s4)"
    unfolding retry_with_backoff_def upto_0_3 a1 a2 a3 a4 by simp
  have w3: "((snd \<circ> func) ^^ 3) w0 = w3"
    using c1 c2 c3 by (simp add: numeral_3_eq_3)
  have w4: "((snd \<circ> func) ^^ 4) w0 = w4"
    using c1 c2 c3 c4 by (simp add: numeral_Bit0 numeral_3_eq_3 eval_nat_numeral)
  show ?thesis
    using res w3 w4 c4 by simp
qed

theorem retry_with_backoff_exhausts_witness:
  "\<exists>e st. retry_with_backoff always_failing 3 2 (\<lambda>e. True) None (\<lambda>k. 1 / 2) 0
              = (Inl (Raised e), st)
     \<and> invocations st = 4
     \<and> fst (always_failing (((snd \<circ> always_failing) ^^ 3) 0)) = Inl e
     \<and> world st = ((snd \<circ> always_failing) ^^ 4) 0
     \<and> length (slept st) = 3"
proof -
  have f: "\<forall>w. \<exists>e w'. always_failing w = (Inl e, w') \<and> (\<lambda>e. True) e"
    by (simp add: always_failing_def)
  have r: "\<forall>k::int. (0::real) \<le> (\<lambda>k. 1 / 2) k" by simp
  from retry_with_backoff_exhausts [OF f r] show ?thesis .
qed

text \<open>
  Claim C9. For an attempt \<open>a \<ge> 0\<close>, a base delay \<open>b > 0\<close> and draws \<open>r\<close>, \<open>r'\<close>
  between 0 and 1, the delay is \<open>b * 2\<^sup>a\<close> plus a jitter
  \<^verbatim>\<open>uniform(0, 0.1 * b * 2^a)\<close>, which lies between 0 and a tenth of \<open>b * 2\<^sup>a\<close>,
  and the delay of attempt \<open>a + 1\<close> is greater than the delay of attempt \<open>a\<close>
  for all draws.
\<close>

theorem exponential_backoff_increasing:
  assumes "0 \<le> a" and "0 < b" and "0 \<le> r" and "r \<le> 1" and "0 \<le> r'" and "r' \<le> 1"
  shows "exponential_backoff a b r = b * 2 ^ nat a + uniform 0 (0.1 * (b * 2 ^ nat a)) r
    \<and> 0 \<le> uniform 0 (0.1 * (b * 2 ^ nat a)) r
    \<and> uniform 0 (0.1 * (b * 2 ^ nat a)) r \<le> 0.1 * (b * 2 ^ nat a)
    \<and> exponential_backoff a b r < exponential_backoff (a + 1) b r'"
proof -
  let ?d = "b * 2 ^ nat a"
  have pw: "(2::real) powi a = 2 ^ nat a" using assms(1) by (simp add: power_int_def)
  have pw1: "(2::real) powi (a + 1) = 2 * 2 ^ nat a"
    using assms(1) by (simp add: power_int_def nat_add_distrib)
  have dpos: "0 < ?d" using assms(2) by simp
  have eq: "exponential_backoff a b r = ?d + uniform 0 (0.1 * ?d) r"
    by (simp add: exponential_backoff_def Let_def pw mult.commute)
  have lo: "0 \<le> uniform 0 (0.1 * ?d) r"
    using dpos assms(3) by (simp add: uniform_def)
  have hi: "uniform 0 (0.1 * ?d) r \<le> 0.1 * ?d"
  proof -
    have "0.1 * ?d * r \<le> 0.1 * ?d * 1"
      using dpos assms(4) by (intro mult_left_mono) auto
    then show ?thesis by (simp add: uniform_def)
  qed
  have next_eq: "exponential_backoff (a + 1) b r' = 2 * ?d + 2 * ?d * 0.1 * r'"
    by (simp add: exponential_backoff_def Let_def pw1 uniform_def)
  have next_lo: "2 * ?d \<le> exponential_backoff (a + 1) b r'"
  proof -
    have "0 \<le> 2 * ?d * 0.1 * r'" using dpos assms(5) by simp
    then show ?thesis unfolding next_eq by linarith
  qed
  have "exponential_backoff a b r \<le> 1.1 * ?d" using eq hi by simp
  also have "\<dots> < 2 * ?d" using dpos by simp
  also note next_lo
  finally have inc: "exponential_backoff a b r < exponential_backoff (a + 1) b r'" .
  from eq lo hi inc show ?thesis by blast
qed

theorem exponential_backoff_increasing_witness:
  "exponential_backoff 0 2 1 = 2 * 2 ^ nat 0 + uniform 0 (0.1 * (2 * 2 ^ nat 0)) 1
    \<and> 0 \<le> uniform 0 (0.1 * (2 * 2 ^ nat 0)) 1
    \<and> uniform 0 (0.1 * (2 * 2 ^ nat 0)) 1 \<le> 0.1 * (2 * 2 ^ nat 0)
    \<and> exponential_backoff 0 2 1 < exponential_backoff (0 + 1) 2 0"
proof -
  have h: "(0::int) \<le> 0" "(0::real) < 2" "(0::real) \<le> 1" "(1::real) \<le> 1" "(0::real) \<le> 0" "(0::real) \<le> 1"
    by simp_all
  from exponential_backoff_increasing [OF h] show ?thesis .
qed

end
